theory Spec2Isabelle
  imports Complex_Main "HOL-Library.Product_Lexorder" "HOL-Library.AList" "HOL-Library.Sublist"
begin

section \<open>JavaScript values used by the aggregation layer\<close>

text \<open>
  Strings are \<open>string\<close> (ASCII text: company slugs, question slugs and topic names of the
  data set). Integral numbers (counts, tiers, scores, limits) are \<open>int\<close>; the frequencies
  and priorities, which the code only copies and compares, are \<open>rat\<close> (the order of finite
  doubles is the order of their values). The averages, the timestamps and the two prose
  fields (\<open>description\<close>, \<open>seoDescription\<close>) are computed in floating point, from the
  clock, or from a table of prose; no property below reads them and the records leave them out.
\<close>

subsection \<open>Strings\<close>

definition toLowerCase_char :: "char \<Rightarrow> char" where
  "toLowerCase_char c =
     (let n = (of_char c :: nat) in if 65 \<le> n \<and> n \<le> 90 then char_of (n + 32) else c)"

definition toLowerCase :: "string \<Rightarrow> string" where
  "toLowerCase s = map toLowerCase_char s"

definition toUpperCase_char :: "char \<Rightarrow> char" where
  "toUpperCase_char c =
     (let n = (of_char c :: nat) in if 97 \<le> n \<and> n \<le> 122 then char_of (n - 32) else c)"

text \<open>The class \<open>\s\<close> of a regular expression, on ASCII.\<close>

definition isWhitespace :: "char \<Rightarrow> bool" where
  "isWhitespace c = ((of_char c :: nat) \<in> {9, 10, 11, 12, 13, 32})"

text \<open>\<open>s.replace(/\s+/g, "-")\<close>: every maximal run of white space becomes one hyphen.\<close>

function replaceWhitespace :: "string \<Rightarrow> string" where
  "replaceWhitespace [] = []"
| "replaceWhitespace (c # cs) =
     (if isWhitespace c then CHR ''-'' # replaceWhitespace (dropWhile isWhitespace cs)
      else c # replaceWhitespace cs)"
  by pat_completeness auto
termination
  by (relation "measure length") (auto simp: length_dropWhile_le less_Suc_eq_le)

text \<open>\<open>name.toLowerCase().replace(/\s+/g, "-")\<close>, the slug of a topic name.\<close>

definition topicSlugOf :: "string \<Rightarrow> string" where
  "topicSlugOf name = replaceWhitespace (toLowerCase name)"

text \<open>\<open>s.split(sep)\<close> for a separator of one character, and \<open>parts.join(sep)\<close>.\<close>

fun split :: "char \<Rightarrow> string \<Rightarrow> string list" where
  "split sep [] = [[]]"
| "split sep (c # cs) =
     (if c = sep then [] # split sep cs
      else (case split sep cs of [] \<Rightarrow> [[c]] | w # ws \<Rightarrow> (c # w) # ws))"

fun join :: "string \<Rightarrow> string list \<Rightarrow> string" where
  "join sep [] = []"
| "join sep [w] = w"
| "join sep (w # ws) = w @ sep @ join sep ws"

text \<open>The decimal rendering of an integral number in a template string.\<close>

fun digits :: "nat \<Rightarrow> string" where
  "digits n = (if n < 10 then [char_of (48 + n)] else digits (n div 10) @ [char_of (48 + n mod 10)])"

definition numberToString :: "int \<Rightarrow> string" where
  "numberToString i = (if i < 0 then CHR ''-'' # digits (nat (- i)) else digits (nat i))"

subsection \<open>Arrays\<close>

text \<open>
  \<open>xs.sort(cmp)\<close> is stable, and places \<open>a\<close> before \<open>b\<close> when \<open>cmp(a, b)\<close> is
  negative. Insertion from the right is such a sort: an element is put before the first
  element of the sorted rest that it does not exceed, so it stays before its equals.
\<close>

fun js_insert :: "('a \<Rightarrow> 'a \<Rightarrow> 'n::linordered_idom) \<Rightarrow> 'a \<Rightarrow> 'a list \<Rightarrow> 'a list" where
  "js_insert cmp x [] = [x]"
| "js_insert cmp x (y # ys) = (if cmp x y \<le> 0 then x # y # ys else y # js_insert cmp x ys)"

definition js_sort :: "('a \<Rightarrow> 'a \<Rightarrow> 'n::linordered_idom) \<Rightarrow> 'a list \<Rightarrow> 'a list" where
  "js_sort cmp xs = foldr (js_insert cmp) xs []"

text \<open>\<open>xs.slice(0, end)\<close>: a negative \<open>end\<close> counts from the end of the array.\<close>

definition slice0 :: "int \<Rightarrow> 'a list \<Rightarrow> 'a list" where
  "slice0 end xs =
     (if end < 0 then take (nat (max 0 (int (length xs) + end))) xs else take (nat end) xs)"

text \<open>\<open>new Set(xs)\<close> keeps the first occurrence of each element, in order.\<close>

definition set_add :: "'a list \<Rightarrow> 'a \<Rightarrow> 'a list" where
  "set_add s x = (if x \<in> set s then s else s @ [x])"

definition new_Set :: "'a list \<Rightarrow> 'a list" where
  "new_Set xs = foldl set_add [] xs"

subsection \<open>Maps\<close>

text \<open>
  A \<open>Map\<close> iterates in insertion order, and \<open>set\<close> on a present key keeps the key's
  place: an association list with distinct keys, updated in place or extended at the end.
\<close>

type_synonym ('k, 'v) js_map = "('k \<times> 'v) list"

definition map_has :: "('k, 'v) js_map \<Rightarrow> 'k \<Rightarrow> bool" where
  "map_has m k = (map_of m k \<noteq> None)"

definition map_get :: "('k, 'v) js_map \<Rightarrow> 'k \<Rightarrow> 'v option" where
  "map_get m k = map_of m k"

definition map_set :: "('k, 'v) js_map \<Rightarrow> 'k \<Rightarrow> 'v \<Rightarrow> ('k, 'v) js_map" where
  "map_set m k v = AList.update k v m"

text \<open>\<open>m.get(k) || []\<close>\<close>

definition get_or_empty :: "('k, 'v list) js_map \<Rightarrow> 'k \<Rightarrow> 'v list" where
  "get_or_empty m k = (case map_get m k of None \<Rightarrow> [] | Some vs \<Rightarrow> vs)"

text \<open>
  \<open>if (!m.has(k)) m.set(k, []); m.get(k)!.push(v)\<close>: the array stored under the key
  grows by one element; a new key enters at the end of the map.
\<close>

definition map_push :: "('k, 'v list) js_map \<Rightarrow> 'k \<Rightarrow> 'v \<Rightarrow> ('k, 'v list) js_map" where
  "map_push m k v =
     (let m1 = (if map_has m k then m else map_set m k []) in
      map_set m1 k (get_or_empty m1 k @ [v]))"

text \<open>\<open>m.set(k, (m.get(k) || 0) + 1)\<close>\<close>

definition map_count :: "('k, int) js_map \<Rightarrow> 'k \<Rightarrow> ('k, int) js_map" where
  "map_count m k = map_set m k ((case map_get m k of None \<Rightarrow> 0 | Some c \<Rightarrow> c) + 1)"

section \<open>Configuration\<close>

text \<open>
  \<open>formatDisplayName\<close>: the words of a slug, each replaced by its abbreviation or given a
  capital first letter.
\<close>

definition abbreviations :: "(string \<times> string) list" where
  "abbreviations =
     [(''aws'', ''AWS''), (''ibm'', ''IBM''), (''jpmorgan'', ''JPMorgan''), (''ml'', ''ML''),
      (''ai'', ''AI''), (''dfs'', ''DFS''), (''bfs'', ''BFS''), (''dp'', ''DP''),
      (''sql'', ''SQL''), (''api'', ''API'')]"

definition formatWord :: "string \<Rightarrow> string" where
  "formatWord word =
     (case map_of abbreviations (toLowerCase word) of
        Some a \<Rightarrow> a
      | None \<Rightarrow> (case word of [] \<Rightarrow> [] | c # cs \<Rightarrow> toUpperCase_char c # cs))"

definition formatDisplayName :: "string \<Rightarrow> string" where
  "formatDisplayName s = join '' '' (map formatWord (split CHR ''-'' s))"

definition companyTiers :: "(string \<times> int) list" where
  "companyTiers =
     [(''google'', 1), (''amazon'', 1), (''meta'', 1), (''facebook'', 1), (''microsoft'', 1),
      (''apple'', 1), (''netflix'', 1), (''uber'', 2), (''airbnb'', 2), (''linkedin'', 2),
      (''twitter'', 2), (''salesforce'', 2), (''adobe'', 2), (''oracle'', 2), (''nvidia'', 2),
      (''stripe'', 2), (''square'', 2), (''paypal'', 2), (''bloomberg'', 2), (''snap'', 2),
      (''spotify'', 2), (''lyft'', 2), (''doordash'', 2), (''instacart'', 2), (''coinbase'', 2),
      (''robinhood'', 2), (''databricks'', 2), (''snowflake'', 2), (''palantir'', 2),
      (''splunk'', 2)]"

text \<open>\<open>companyTiers[slug.toLowerCase()] || 3\<close>; no tier of the table is zero.\<close>

definition getCompanyTier :: "string \<Rightarrow> int" where
  "getCompanyTier s = (case map_of companyTiers (toLowerCase s) of Some t \<Rightarrow> t | None \<Rightarrow> 3)"

section \<open>Data model\<close>

text \<open>
  A raw record, with the fields the aggregation reads. The difficulty arrives as a string;
  the declared type admits \<open>Easy\<close>, \<open>Medium\<close> and \<open>Hard\<close>.
\<close>

record QuestionWithDetails =
  qid :: int
  slug :: string
  title :: string
  difficulty :: string
  topics :: "string list"
  acceptance_rate :: rat
  company :: string
  frequency :: rat
  timeframe :: string
  is_premium :: string
  link :: string


record DifficultyBreakdown =
  easy :: int
  medium :: int
  hard :: int

record TopicCount =
  slug :: string
  name :: string
  count :: int

record CompanyCount =
  slug :: string
  name :: string
  count :: int

record CompanyFrequency =
  company :: string
  displayName :: string
  frequency :: rat
  timeframe :: string

record Company =
  slug :: string
  name :: string
  displayName :: string
  questionCount :: int
  uniqueQuestionCount :: int
  difficultyBreakdown :: DifficultyBreakdown
  topTopics :: "TopicCount list"

section \<open>Aggregation\<close>

subsection \<open>Helpers\<close>

text \<open>
  \<open>calculateDifficultyBreakdown\<close>: \<open>breakdown[q.difficulty.toLowerCase()]++\<close>. For a
  string other than the three keys the increment lands on another property of the object
  and the three counts stay.
\<close>

definition countDifficulty :: "DifficultyBreakdown \<Rightarrow> QuestionWithDetails \<Rightarrow> DifficultyBreakdown" where
  "countDifficulty b q =
     (let d = toLowerCase (difficulty q) in
      if d = ''easy'' then b\<lparr>easy := easy b + 1\<rparr>
      else if d = ''medium'' then b\<lparr>medium := medium b + 1\<rparr>
      else if d = ''hard'' then b\<lparr>hard := hard b + 1\<rparr>
      else b)"

definition calculateDifficultyBreakdown :: "QuestionWithDetails list \<Rightarrow> DifficultyBreakdown" where
  "calculateDifficultyBreakdown qs = foldl countDifficulty \<lparr>easy = 0, medium = 0, hard = 0\<rparr> qs"

text \<open>\<open>calculateTopTopics\<close>: occurrences of each topic string, the most frequent first.\<close>

definition countTopics :: "QuestionWithDetails list \<Rightarrow> (string, int) js_map" where
  "countTopics qs = foldl (\<lambda>m q. foldl map_count m (topics q)) [] qs"

definition calculateTopTopics :: "QuestionWithDetails list \<Rightarrow> int \<Rightarrow> TopicCount list" where
  "calculateTopTopics qs limit =
     map (\<lambda>(n, c). \<lparr>TopicCount.slug = topicSlugOf n, name = n, count = c\<rparr>)
       (slice0 limit (js_sort (\<lambda>a b. snd b - snd a) (countTopics qs)))"

subsection \<open>Company aggregation\<close>

definition makeCompany :: "string \<Rightarrow> QuestionWithDetails list \<Rightarrow> Company" where
  "makeCompany companySlug companyQuestions =
     \<lparr>Company.slug = companySlug,
      name = companySlug,
      displayName = formatDisplayName companySlug,
      questionCount = int (length companyQuestions),
      uniqueQuestionCount = int (length (new_Set (map QuestionWithDetails.slug companyQuestions))),
      difficultyBreakdown = calculateDifficultyBreakdown companyQuestions,
      topTopics = calculateTopTopics companyQuestions 10\<rparr>"

fun collectCompanies ::
  "QuestionWithDetails list \<Rightarrow> string list \<Rightarrow> (string, Company) js_map \<Rightarrow> (string, Company) js_map" where
  "collectCompanies questions [] companies = companies"
| "collectCompanies questions (companySlug # rest) companies =
     (let companyQuestions = filter (\<lambda>q. QuestionWithDetails.company q = companySlug) questions in
      if length companyQuestions = 0 then collectCompanies questions rest companies
      else collectCompanies questions rest
             (map_set companies companySlug (makeCompany companySlug companyQuestions)))"

definition compareCompanies :: "string \<times> Company \<Rightarrow> string \<times> Company \<Rightarrow> int" where
  "compareCompanies a b =
     (let tierDiff = getCompanyTier (fst a) - getCompanyTier (fst b) in
      if tierDiff \<noteq> 0 then tierDiff else questionCount (snd b) - questionCount (snd a))"

definition aggregateCompanies ::
  "QuestionWithDetails list \<Rightarrow> string list \<Rightarrow> (string, Company) js_map" where
  "aggregateCompanies questions companyList =
     js_sort compareCompanies (collectCompanies questions companyList [])"

subsection \<open>Topic aggregation\<close>

record Topic =
  slug :: string
  name :: string
  questionCount :: int
  difficultyBreakdown :: DifficultyBreakdown
  topCompanies :: "CompanyCount list"
  relatedTopics :: "string list"

definition countCompanies :: "QuestionWithDetails list \<Rightarrow> (string, int) js_map" where
  "countCompanies qs = foldl (\<lambda>m q. map_count m (QuestionWithDetails.company q)) [] qs"

definition compareCompanyCounts :: "string \<times> int \<Rightarrow> string \<times> int \<Rightarrow> int" where
  "compareCompanyCounts a b =
     (let tierDiff = getCompanyTier (fst a) - getCompanyTier (fst b) in
      if tierDiff \<noteq> 0 then tierDiff else snd b - snd a)"

definition calculateTopCompanies :: "QuestionWithDetails list \<Rightarrow> int \<Rightarrow> CompanyCount list" where
  "calculateTopCompanies qs limit =
     map (\<lambda>(s, c). \<lparr>CompanyCount.slug = s, name = formatDisplayName s, count = c\<rparr>)
       (slice0 limit (js_sort compareCompanyCounts (countCompanies qs)))"

text \<open>\<open>q.topics.some((t) => t.toLowerCase() === lower)\<close>\<close>

definition hasTopic :: "string \<Rightarrow> QuestionWithDetails \<Rightarrow> bool" where
  "hasTopic lower q = (\<exists>t \<in> set (topics q). toLowerCase t = lower)"

definition countCooccurrence :: "QuestionWithDetails list \<Rightarrow> string \<Rightarrow> (string, int) js_map" where
  "countCooccurrence qs targetLower =
     foldl (\<lambda>m q.
        if hasTopic targetLower q
        then foldl (\<lambda>m topic. if toLowerCase topic \<noteq> targetLower then map_count m topic else m)
               m (topics q)
        else m) [] qs"

definition calculateRelatedTopics :: "QuestionWithDetails list \<Rightarrow> string \<Rightarrow> int \<Rightarrow> string list" where
  "calculateRelatedTopics qs targetTopic limit =
     map (\<lambda>(topic, c). topicSlugOf topic)
       (slice0 limit (js_sort (\<lambda>a b. snd b - snd a) (countCooccurrence qs (toLowerCase targetTopic))))"

definition makeTopic :: "QuestionWithDetails list \<Rightarrow> string \<Rightarrow> QuestionWithDetails list \<Rightarrow> Topic" where
  "makeTopic questions topicName topicQuestions =
     \<lparr>Topic.slug = topicSlugOf topicName,
      name = topicName,
      questionCount = int (length topicQuestions),
      difficultyBreakdown = calculateDifficultyBreakdown topicQuestions,
      topCompanies = calculateTopCompanies topicQuestions 10,
      relatedTopics = calculateRelatedTopics questions topicName 5\<rparr>"

fun collectTopics ::
  "QuestionWithDetails list \<Rightarrow> string list \<Rightarrow> (string, Topic) js_map \<Rightarrow> (string, Topic) js_map" where
  "collectTopics questions [] tmap = tmap"
| "collectTopics questions (topicName # rest) tmap =
     (let topicQuestions = filter (hasTopic (toLowerCase topicName)) questions in
      if length topicQuestions = 0 then collectTopics questions rest tmap
      else collectTopics questions rest
             (map_set tmap (topicSlugOf topicName) (makeTopic questions topicName topicQuestions)))"

definition aggregateTopics ::
  "QuestionWithDetails list \<Rightarrow> string list \<Rightarrow> (string, Topic) js_map" where
  "aggregateTopics questions topicList =
     js_sort (\<lambda>a b. Topic.questionCount (snd b) - Topic.questionCount (snd a))
       (collectTopics questions topicList [])"

subsection \<open>Question deduplication\<close>

record UniqueQuestion =
  qid :: int
  slug :: string
  title :: string
  difficulty :: string
  topics :: "string list"
  acceptanceRate :: rat
  companies :: "CompanyFrequency list"
  isPremium :: bool
  leetcodeUrl :: string
  relatedQuestions :: "string list"

text \<open>
  \<open>findRelatedQuestions\<close>: one point for the target's difficulty, two for each topic
  of the record that the target has too.
\<close>

definition relatedScore :: "QuestionWithDetails \<Rightarrow> QuestionWithDetails \<Rightarrow> int" where
  "relatedScore target q =
     (let score = (if QuestionWithDetails.difficulty q = QuestionWithDetails.difficulty target
                   then 1 else 0);
          overlap = length (filter (\<lambda>t. \<exists>tt \<in> set (QuestionWithDetails.topics target).
                                           toLowerCase tt = toLowerCase t)
                              (QuestionWithDetails.topics q))
      in score + int overlap * 2)"

definition scoreQuestions ::
  "QuestionWithDetails list \<Rightarrow> QuestionWithDetails \<Rightarrow> (string, int) js_map" where
  "scoreQuestions qs target =
     foldl (\<lambda>scores q.
        if QuestionWithDetails.slug q = QuestionWithDetails.slug target then scores
        else if relatedScore target q > 0
             then map_set scores (QuestionWithDetails.slug q) (relatedScore target q)
             else scores) [] qs"

definition findRelatedQuestions ::
  "QuestionWithDetails list \<Rightarrow> QuestionWithDetails \<Rightarrow> int \<Rightarrow> string list" where
  "findRelatedQuestions qs target limit =
     map fst (slice0 limit (js_sort (\<lambda>a b. snd b - snd a) (scoreQuestions qs target)))"

definition companyFrequencyOf :: "QuestionWithDetails \<Rightarrow> CompanyFrequency" where
  "companyFrequencyOf q =
     \<lparr>CompanyFrequency.company = QuestionWithDetails.company q,
      displayName = formatDisplayName (QuestionWithDetails.company q),
      frequency = QuestionWithDetails.frequency q,
      timeframe = QuestionWithDetails.timeframe q\<rparr>"

text \<open>The first pass: the companies of each slug, in the order of the records.\<close>

definition groupCompanies :: "QuestionWithDetails list \<Rightarrow> (string, CompanyFrequency list) js_map" where
  "groupCompanies qs =
     foldl (\<lambda>m q. map_push m (QuestionWithDetails.slug q) (companyFrequencyOf q)) [] qs"

definition makeUniqueQuestion ::
  "QuestionWithDetails list \<Rightarrow> QuestionWithDetails \<Rightarrow> CompanyFrequency list \<Rightarrow> UniqueQuestion" where
  "makeUniqueQuestion questions q sortedCompanies =
     \<lparr>UniqueQuestion.qid = QuestionWithDetails.qid q,
      slug = QuestionWithDetails.slug q,
      title = QuestionWithDetails.title q,
      difficulty = QuestionWithDetails.difficulty q,
      topics = QuestionWithDetails.topics q,
      acceptanceRate = acceptance_rate q,
      companies = sortedCompanies,
      isPremium = (is_premium q = ''Y''),
      leetcodeUrl = link q,
      relatedQuestions = findRelatedQuestions questions q 5\<rparr>"

text \<open>
  The second pass: the first record of each slug makes the entry; the slug's company list
  is sorted where it is stored, by frequency, the highest first.
\<close>

fun collectUnique ::
  "QuestionWithDetails list \<Rightarrow> (string, CompanyFrequency list) js_map \<Rightarrow> QuestionWithDetails list \<Rightarrow>
   (string, UniqueQuestion) js_map \<Rightarrow> (string, UniqueQuestion) js_map" where
  "collectUnique questions questionCompanies [] uniqueQuestions = uniqueQuestions"
| "collectUnique questions questionCompanies (q # rest) uniqueQuestions =
     (if map_has uniqueQuestions (QuestionWithDetails.slug q)
      then collectUnique questions questionCompanies rest uniqueQuestions
      else
        (let sortedCompanies =
               js_sort (\<lambda>a b. CompanyFrequency.frequency b - CompanyFrequency.frequency a)
                 (get_or_empty questionCompanies (QuestionWithDetails.slug q))
         in collectUnique questions
              (map_set questionCompanies (QuestionWithDetails.slug q) sortedCompanies) rest
              (map_set uniqueQuestions (QuestionWithDetails.slug q)
                 (makeUniqueQuestion questions q sortedCompanies))))"

definition deduplicateQuestions :: "QuestionWithDetails list \<Rightarrow> (string, UniqueQuestion) js_map" where
  "deduplicateQuestions questions =
     js_sort (\<lambda>a b. int (length (companies (snd b))) - int (length (companies (snd a))))
       (collectUnique questions (groupCompanies questions) questions [])"

subsection \<open>Cross-reference index\<close>

record CompanyTopicCrossRef =
  companySlug :: string
  companyName :: string
  topicSlug :: string
  topicName :: string
  questionCount :: int
  difficultyBreakdown :: DifficultyBreakdown

record CrossReferenceIndex =
  companyTopics :: "(string, CompanyTopicCrossRef list) js_map"
  topicCompanies :: "(string, CompanyTopicCrossRef list) js_map"
  questionCompanies :: "(string, string list) js_map"
  questionTopics :: "(string, string list) js_map"

text \<open>The companies of each question slug, each once, and the topics of its first record.\<close>

definition addQuestionCompany :: "(string, string list) js_map \<Rightarrow> QuestionWithDetails \<Rightarrow> (string, string list) js_map" where
  "addQuestionCompany m q =
     (let m1 = (if map_has m (QuestionWithDetails.slug q) then m
                else map_set m (QuestionWithDetails.slug q) []);
          cs = get_or_empty m1 (QuestionWithDetails.slug q)
      in if QuestionWithDetails.company q \<in> set cs then m1
         else map_set m1 (QuestionWithDetails.slug q) (cs @ [QuestionWithDetails.company q]))"

definition addQuestionTopics :: "(string, string list) js_map \<Rightarrow> QuestionWithDetails \<Rightarrow> (string, string list) js_map" where
  "addQuestionTopics m q =
     (if map_has m (QuestionWithDetails.slug q) then m
      else map_set m (QuestionWithDetails.slug q) (QuestionWithDetails.topics q))"

text \<open>The bucket key \<open>`${q.company}:${topic.toLowerCase()}`\<close>.\<close>

definition crossRefKey :: "string \<Rightarrow> string \<Rightarrow> string" where
  "crossRefKey c topic = c @ '':'' @ toLowerCase topic"

definition buildCrossRefMap :: "QuestionWithDetails list \<Rightarrow> (string, QuestionWithDetails list) js_map" where
  "buildCrossRefMap qs =
     foldl (\<lambda>m q. foldl (\<lambda>m topic. map_push m (crossRefKey (QuestionWithDetails.company q) topic) q)
                     m (QuestionWithDetails.topics q)) [] qs"

text \<open>\<open>xs.find(p) || d\<close>: the first element that satisfies \<open>p\<close>, unless it is the empty string.\<close>

definition find_or :: "(string \<Rightarrow> bool) \<Rightarrow> string list \<Rightarrow> string \<Rightarrow> string" where
  "find_or p xs d = (case List.find p xs of None \<Rightarrow> d | Some t \<Rightarrow> if t = [] then d else t)"

text \<open>
  \<open>const [companySlug, topicLower] = key.split(":")\<close>: the first two parts of the key.
  Every key holds a colon, so it has two parts at least; a bucket is never empty, so
  \<open>qs[0]\<close> is its first record.
\<close>

definition makeCrossRef :: "string \<Rightarrow> QuestionWithDetails list \<Rightarrow> CompanyTopicCrossRef option" where
  "makeCrossRef key qs =
     (case (split CHR '':'' key, qs) of
        (c # topicLower # _, q0 # _) \<Rightarrow>
          Some \<lparr>companySlug = c,
                companyName = formatDisplayName c,
                topicSlug = replaceWhitespace topicLower,
                topicName = find_or (\<lambda>t. toLowerCase t = topicLower) (QuestionWithDetails.topics q0) topicLower,
                questionCount = int (length qs),
                difficultyBreakdown = calculateDifficultyBreakdown qs\<rparr>
      | _ \<Rightarrow> None)"

definition addCrossRef ::
  "(string, CompanyTopicCrossRef list) js_map \<times> (string, CompanyTopicCrossRef list) js_map \<Rightarrow>
   string \<times> QuestionWithDetails list \<Rightarrow>
   (string, CompanyTopicCrossRef list) js_map \<times> (string, CompanyTopicCrossRef list) js_map" where
  "addCrossRef maps entry =
     (case makeCrossRef (fst entry) (snd entry) of
        None \<Rightarrow> maps
      | Some crossRef \<Rightarrow>
          (map_push (fst maps) (companySlug crossRef) crossRef,
           map_push (snd maps) (topicSlug crossRef) crossRef))"

definition compareCrossRefs :: "CompanyTopicCrossRef \<Rightarrow> CompanyTopicCrossRef \<Rightarrow> int" where
  "compareCrossRefs a b = CompanyTopicCrossRef.questionCount b - CompanyTopicCrossRef.questionCount a"

text \<open>\<open>for (const refs of m.values()) refs.sort(cmp)\<close>\<close>

definition sortValues :: "('a \<Rightarrow> 'a \<Rightarrow> 'n::linordered_idom) \<Rightarrow> ('k, 'a list) js_map \<Rightarrow> ('k, 'a list) js_map" where
  "sortValues cmp m = map (\<lambda>(k, vs). (k, js_sort cmp vs)) m"

definition buildCrossReferenceIndex :: "QuestionWithDetails list \<Rightarrow> CrossReferenceIndex" where
  "buildCrossReferenceIndex qs =
     (let maps = foldl addCrossRef ([], []) (buildCrossRefMap qs) in
      \<lparr>companyTopics = sortValues compareCrossRefs (fst maps),
       topicCompanies = sortValues compareCrossRefs (snd maps),
       questionCompanies = foldl addQuestionCompany [] qs,
       questionTopics = foldl addQuestionTopics [] qs\<rparr>)"

subsection \<open>Question listings\<close>

record QuestionWithCompanyContext =
  qid :: int
  slug :: string
  title :: string
  difficulty :: string
  topics :: "string list"
  acceptanceRate :: rat
  frequency :: rat
  timeframe :: string
  isPremium :: bool
  leetcodeUrl :: string

definition withContext :: "QuestionWithDetails \<Rightarrow> QuestionWithCompanyContext" where
  "withContext q =
     \<lparr>QuestionWithCompanyContext.qid = QuestionWithDetails.qid q,
      slug = QuestionWithDetails.slug q,
      title = QuestionWithDetails.title q,
      difficulty = QuestionWithDetails.difficulty q,
      topics = QuestionWithDetails.topics q,
      acceptanceRate = acceptance_rate q,
      frequency = QuestionWithDetails.frequency q,
      timeframe = QuestionWithDetails.timeframe q,
      isPremium = (is_premium q = ''Y''),
      leetcodeUrl = link q\<rparr>"

definition compareFrequency :: "QuestionWithCompanyContext \<Rightarrow> QuestionWithCompanyContext \<Rightarrow> rat" where
  "compareFrequency a b = QuestionWithCompanyContext.frequency b - QuestionWithCompanyContext.frequency a"

definition buildCompanyQuestionsIndex ::
  "QuestionWithDetails list \<Rightarrow> (string, QuestionWithCompanyContext list) js_map" where
  "buildCompanyQuestionsIndex qs =
     sortValues compareFrequency
       (foldl (\<lambda>m q. map_push m (QuestionWithDetails.company q) (withContext q)) [] qs)"

text \<open>The first question of each slug, in order (\<open>seen\<close> is the set of the slugs kept).\<close>

fun dedupeBySlug :: "string list \<Rightarrow> QuestionWithCompanyContext list \<Rightarrow> QuestionWithCompanyContext list" where
  "dedupeBySlug seen [] = []"
| "dedupeBySlug seen (q # qs) =
     (if QuestionWithCompanyContext.slug q \<in> set seen then dedupeBySlug seen qs
      else q # dedupeBySlug (seen @ [QuestionWithCompanyContext.slug q]) qs)"

definition buildTopicQuestionsIndex ::
  "QuestionWithDetails list \<Rightarrow> (string, QuestionWithCompanyContext list) js_map" where
  "buildTopicQuestionsIndex qs =
     map (\<lambda>(topicSlug, ts). (topicSlug, dedupeBySlug [] (js_sort compareFrequency ts)))
       (foldl (\<lambda>m q. foldl (\<lambda>m topic. map_push m (topicSlugOf topic) (withContext q))
                        m (QuestionWithDetails.topics q)) [] qs)"

subsection \<open>The build\<close>

record Stats =
  totalCompanies :: int
  totalTopics :: int
  totalUniqueQuestions :: int
  totalQuestionRecords :: int

record BuildCache =
  companies :: "(string, Company) js_map"
  topics :: "(string, Topic) js_map"
  questions :: "(string, UniqueQuestion) js_map"
  crossRefs :: CrossReferenceIndex
  companyQuestions :: "(string, QuestionWithCompanyContext list) js_map"
  topicQuestions :: "(string, QuestionWithCompanyContext list) js_map"
  stats :: Stats

text \<open>A value thrown, or the reason a promise is rejected with.\<close>

datatype js_error = Error string

text \<open>
  The synchronous part of \<open>buildAggregatedData\<close>, from the loaded data to the snapshot.
  Nothing in it throws, and nothing inspects a record before it is aggregated.
\<close>

definition aggregateAll :: "QuestionWithDetails list \<Rightarrow> string list \<Rightarrow> string list \<Rightarrow> BuildCache" where
  "aggregateAll rawQuestions companyList topicList =
     (let cs = aggregateCompanies rawQuestions companyList;
          ts = aggregateTopics rawQuestions topicList;
          us = deduplicateQuestions rawQuestions
      in \<lparr>companies = cs,
          topics = ts,
          questions = us,
          crossRefs = buildCrossReferenceIndex rawQuestions,
          companyQuestions = buildCompanyQuestionsIndex rawQuestions,
          topicQuestions = buildTopicQuestionsIndex rawQuestions,
          stats = \<lparr>totalCompanies = int (length cs),
                   totalTopics = int (length ts),
                   totalUniqueQuestions = int (length us),
                   totalQuestionRecords = int (length rawQuestions)\<rparr>\<rparr>)"


subsection \<open>Accessors\<close>

text \<open>
  Each accessor awaits the snapshot and reads one map: \<open>get(slug) || null\<close> for one
  entity (\<open>None\<close> is \<open>null\<close>), \<open>get(slug) || []\<close> for a list.
\<close>

definition getCompanyBySlug :: "BuildCache \<Rightarrow> string \<Rightarrow> Company option" where
  "getCompanyBySlug cache s = map_get (companies cache) s"

definition getTopicBySlug :: "BuildCache \<Rightarrow> string \<Rightarrow> Topic option" where
  "getTopicBySlug cache s = map_get (BuildCache.topics cache) s"

definition getQuestionBySlug :: "BuildCache \<Rightarrow> string \<Rightarrow> UniqueQuestion option" where
  "getQuestionBySlug cache s = map_get (questions cache) s"

definition getQuestionsByCompany :: "BuildCache \<Rightarrow> string \<Rightarrow> QuestionWithCompanyContext list" where
  "getQuestionsByCompany cache s = get_or_empty (companyQuestions cache) s"

definition getQuestionsByTopic :: "BuildCache \<Rightarrow> string \<Rightarrow> QuestionWithCompanyContext list" where
  "getQuestionsByTopic cache s = get_or_empty (topicQuestions cache) s"

definition getCompanyTopicCrossRefs :: "BuildCache \<Rightarrow> string \<Rightarrow> CompanyTopicCrossRef list" where
  "getCompanyTopicCrossRefs cache s = get_or_empty (companyTopics (crossRefs cache)) s"

definition getTopicCompanyCrossRefs :: "BuildCache \<Rightarrow> string \<Rightarrow> CompanyTopicCrossRef list" where
  "getTopicCompanyCrossRefs cache s = get_or_empty (topicCompanies (crossRefs cache)) s"

definition getQuestionCompanies :: "BuildCache \<Rightarrow> string \<Rightarrow> string list" where
  "getQuestionCompanies cache s = get_or_empty (questionCompanies (crossRefs cache)) s"

text \<open>A slug is present in a snapshot when it is a key of one of its maps.\<close>

definition slugPresent :: "BuildCache \<Rightarrow> string \<Rightarrow> bool" where
  "slugPresent cache s =
     (map_has (companies cache) s \<or> map_has (BuildCache.topics cache) s \<or>
      map_has (questions cache) s \<or> map_has (companyQuestions cache) s \<or>
      map_has (topicQuestions cache) s \<or> map_has (companyTopics (crossRefs cache)) s \<or>
      map_has (topicCompanies (crossRefs cache)) s \<or>
      map_has (questionCompanies (crossRefs cache)) s)"

section \<open>Cache controller\<close>

text \<open>
  The module keeps two variables, \<open>buildCache\<close> and \<open>cachePromise\<close>. The run-time is
  single-threaded: a call of \<open>getBuildCache\<close> runs without interruption up to its
  \<open>await\<close>, and is resumed when the awaited promise settles. The state below adds, to the
  two variables, the promises that the invocations of \<open>buildAggregatedData\<close> returned
  (one per invocation, in order; \<open>cachePromise\<close> holds the index of one) and, for
  every call of \<open>getBuildCache\<close> so far, how the promise it gave its caller gets its value.
  The snapshot type is a parameter: a snapshot is an object, passed by reference.
\<close>

datatype 'a promise = Pending | Fulfilled 'a | Rejected js_error

datatype 'a call =
    Returned 'a       \<comment> \<open>\<open>return buildCache\<close>\<close>
  | Follows nat       \<comment> \<open>\<open>return cachePromise\<close>: settles as that promise does\<close>
  | Awaiting nat      \<comment> \<open>suspended at \<open>await cachePromise\<close>\<close>
  | Threw js_error    \<comment> \<open>the \<open>await\<close> threw the rejection reason\<close>

record 'a controller =
  buildCache :: "'a option"
  cachePromise :: "nat option"
  builds :: "'a promise list"
  calls :: "'a call list"

definition initial :: "'a controller" where
  "initial = \<lparr>buildCache = None, cachePromise = None, builds = [], calls = []\<rparr>"

text \<open>A call of \<open>getBuildCache\<close>, up to its return or its \<open>await\<close>.\<close>

definition getBuildCache :: "'a controller \<Rightarrow> 'a controller" where
  "getBuildCache st =
     (case buildCache st of
        Some snapshot \<Rightarrow> st\<lparr>calls := calls st @ [Returned snapshot]\<rparr>
      | None \<Rightarrow>
          (case cachePromise st of
             Some p \<Rightarrow> st\<lparr>calls := calls st @ [Follows p]\<rparr>
           | None \<Rightarrow>
               st\<lparr>cachePromise := Some (length (builds st)),
                  builds := builds st @ [Pending],
                  calls := calls st @ [Awaiting (length (builds st))]\<rparr>))"

text \<open>
  The rest of a call suspended at \<open>await cachePromise\<close>, once promise \<open>p\<close> has settled
  with \<open>r\<close>: \<open>buildCache = \<dots>; cachePromise = null; return buildCache\<close> when it is
  fulfilled; when it is rejected the \<open>await\<close> throws and the two assignments are not reached.
\<close>

definition resume :: "nat \<Rightarrow> 'a promise \<Rightarrow> 'a controller \<Rightarrow> nat \<Rightarrow> 'a controller" where
  "resume p r st i =
     (if calls st ! i = Awaiting p then
        (case r of
           Fulfilled snapshot \<Rightarrow>
             st\<lparr>buildCache := Some snapshot, cachePromise := None,
                calls := (calls st)[i := Returned snapshot]\<rparr>
         | Rejected e \<Rightarrow> st\<lparr>calls := (calls st)[i := Threw e]\<rparr>
         | Pending \<Rightarrow> st)
      else st)"

text \<open>
  Build \<open>p\<close> completes with \<open>outcome\<close> (what \<open>buildAggregatedData\<close> returns or throws):
  its promise settles, and the calls that await it are resumed, in the order they were made.
  A call of \<open>getBuildCache\<close> made between the settling and the resumption would find
  \<open>cachePromise\<close> set and follow it, as one made just before the settling does.
\<close>

definition settle :: "nat \<Rightarrow> js_error + 'a \<Rightarrow> 'a controller \<Rightarrow> 'a controller" where
  "settle p outcome st =
     (if p < length (builds st) \<and> builds st ! p = Pending then
        (let r = (case outcome of Inl e \<Rightarrow> Rejected e | Inr snapshot \<Rightarrow> Fulfilled snapshot) in
         foldl (resume p r) (st\<lparr>builds := (builds st)[p := r]\<rparr>) [0 ..< length (calls st)])
      else st)"

text \<open>What the promise of a call holds.\<close>

definition callResult :: "'a controller \<Rightarrow> 'a call \<Rightarrow> 'a promise" where
  "callResult st c =
     (case c of
        Returned snapshot \<Rightarrow> Fulfilled snapshot
      | Follows p \<Rightarrow> (if p < length (builds st) then builds st ! p else Pending)
      | Awaiting p \<Rightarrow> Pending
      | Threw e \<Rightarrow> Rejected e)"

definition results :: "'a controller \<Rightarrow> 'a promise list" where
  "results st = map (callResult st) (calls st)"

section \<open>Related content\<close>

record InternalLink =
  href :: string
  text' :: string
  title :: "string option"
  priority :: rat

datatype PageType =
    PageHome | PageCompanies | PageTopics | PageProblems | PageCompany | PageTopic
  | PageProblem | PageCompanyTopic | PageDifficulty | PageSystemDesign

fun canonicalPatterns :: "PageType \<Rightarrow> string" where
  "canonicalPatterns PageHome = ''/''"
| "canonicalPatterns PageCompanies = ''/companies''"
| "canonicalPatterns PageTopics = ''/topics''"
| "canonicalPatterns PageProblems = ''/problems''"
| "canonicalPatterns PageCompany = ''/company/{slug}''"
| "canonicalPatterns PageTopic = ''/topic/{slug}''"
| "canonicalPatterns PageProblem = ''/problem/{slug}''"
| "canonicalPatterns PageCompanyTopic = ''/company/{company}/{topic}''"
| "canonicalPatterns PageDifficulty = ''/difficulty/{level}''"
| "canonicalPatterns PageSystemDesign = ''/system-design/{slug}''"

text \<open>
  \<open>pattern.replace(search, replacement)\<close> with strings: the first occurrence of
  \<open>search\<close> is replaced; in the replacement \<open>$$\<close> stands for a dollar sign, \<open>$&\<close> for
  the match, and \<open>$\<close> with a backquote or a quote for the text before or after the match.
\<close>

fun getSubstitution :: "string \<Rightarrow> string \<Rightarrow> string \<Rightarrow> string \<Rightarrow> string" where
  "getSubstitution matched preceding following [] = []"
| "getSubstitution matched preceding following [c] = [c]"
| "getSubstitution matched preceding following (c # d # r) =
     (if c = CHR ''$'' \<and> d = CHR ''$'' then CHR ''$'' # getSubstitution matched preceding following r
      else if c = CHR ''$'' \<and> d = CHR ''&'' then matched @ getSubstitution matched preceding following r
      else if c = CHR ''$'' \<and> d = CHR 0x60 then preceding @ getSubstitution matched preceding following r
      else if c = CHR ''$'' \<and> d = CHR 0x27 then following @ getSubstitution matched preceding following r
      else c # getSubstitution matched preceding following (d # r))"

fun replaceFrom :: "string \<Rightarrow> string \<Rightarrow> string \<Rightarrow> string \<Rightarrow> string" where
  "replaceFrom search replacement preceding rest =
     (if prefix search rest
      then preceding @ getSubstitution search preceding (drop (length search) rest) replacement
             @ drop (length search) rest
      else (case rest of
              [] \<Rightarrow> preceding
            | c # cs \<Rightarrow> replaceFrom search replacement (preceding @ [c]) cs))"

definition js_replace :: "string \<Rightarrow> string \<Rightarrow> string \<Rightarrow> string" where
  "js_replace search replacement s = replaceFrom search replacement [] s"

text \<open>
  \<open>getCanonicalUrl\<close>; \<open>siteUrl\<close> is \<open>seoConfig.siteUrl\<close>, which is read from the
  environment.
\<close>

definition getCanonicalUrl :: "string \<Rightarrow> PageType \<Rightarrow> (string \<times> string) list \<Rightarrow> string" where
  "getCanonicalUrl siteUrl pageType params =
     siteUrl @ foldl (\<lambda>pattern (key, v). js_replace (''{'' @ key @ ''}'') v pattern)
                 (canonicalPatterns pageType) params"

subsection \<open>Related companies\<close>






subsection \<open>Related topics\<close>

definition topicLink :: "string \<Rightarrow> rat \<Rightarrow> Topic \<Rightarrow> InternalLink" where
  "topicLink siteUrl p t =
     \<lparr>href = getCanonicalUrl siteUrl PageTopic [(''slug'', Topic.slug t)],
      text' = Topic.name t,
      title = Some (Topic.name t @ '' Problems ('' @ numberToString (Topic.questionCount t) @
                    '' questions)''),
      priority = p\<rparr>"

text \<open>The links of the entries of \<open>m\<close> found under the given slugs, in the order of the slugs.\<close>

fun explicitLinks :: "('a \<Rightarrow> InternalLink) \<Rightarrow> (string, 'a) js_map \<Rightarrow> string list \<Rightarrow> InternalLink list" where
  "explicitLinks mk m [] = []"
| "explicitLinks mk m (s # rest) =
     (case map_get m s of
        Some x \<Rightarrow> mk x # explicitLinks mk m rest
      | None \<Rightarrow> explicitLinks mk m rest)"

definition getRelatedTopics ::
  "string \<Rightarrow> Topic \<Rightarrow> (string, Topic) js_map \<Rightarrow> int \<Rightarrow> InternalLink list" where
  "getRelatedTopics siteUrl currentTopic allTopics limit =
     (let relatedSlugs = new_Set (relatedTopics currentTopic);
          links = explicitLinks (topicLink siteUrl 1) allTopics relatedSlugs;
          links =
            (if int (length links) < limit then
               (let popular =
                      slice0 (limit - int (length links))
                        (js_sort (\<lambda>a b. Topic.questionCount b - Topic.questionCount a)
                           (filter (\<lambda>t. Topic.slug t \<noteq> Topic.slug currentTopic \<and>
                                         Topic.slug t \<notin> set relatedSlugs)
                              (map snd allTopics)))
                in links @ map (topicLink siteUrl (7 / 10)) popular)
             else links)
      in slice0 limit links)"

subsection \<open>Related problems\<close>

definition problemScore :: "UniqueQuestion \<Rightarrow> UniqueQuestion \<Rightarrow> int" where
  "problemScore currentQuestion q =
     (let currentTopics = new_Set (map toLowerCase (UniqueQuestion.topics currentQuestion));
          score = 0;
          topicOverlap = int (length (filter (\<lambda>t. toLowerCase t \<in> set currentTopics)
                                        (UniqueQuestion.topics q)));
          score = score + topicOverlap * 5;
          score = (if UniqueQuestion.difficulty q = UniqueQuestion.difficulty currentQuestion
                   then score + 2 else score);
          score = score + min (int (length (UniqueQuestion.companies q))) 5
      in score)"

fun scoreProblems ::
  "UniqueQuestion \<Rightarrow> string list \<Rightarrow> UniqueQuestion list \<Rightarrow> (UniqueQuestion \<times> int) list \<Rightarrow>
   (UniqueQuestion \<times> int) list" where
  "scoreProblems currentQuestion relatedSlugs [] scored = scored"
| "scoreProblems currentQuestion relatedSlugs (q # rest) scored =
     (if UniqueQuestion.slug q = UniqueQuestion.slug currentQuestion \<or>
         UniqueQuestion.slug q \<in> set relatedSlugs
      then scoreProblems currentQuestion relatedSlugs rest scored
      else if problemScore currentQuestion q > 0
           then scoreProblems currentQuestion relatedSlugs rest
                  (scored @ [(q, problemScore currentQuestion q)])
           else scoreProblems currentQuestion relatedSlugs rest scored)"

definition problemLink :: "string \<Rightarrow> rat \<Rightarrow> UniqueQuestion \<Rightarrow> InternalLink" where
  "problemLink siteUrl p q =
     \<lparr>href = getCanonicalUrl siteUrl PageProblem [(''slug'', UniqueQuestion.slug q)],
      text' = UniqueQuestion.title q,
      title = Some (UniqueQuestion.title q @ '' - '' @ UniqueQuestion.difficulty q),
      priority = p\<rparr>"

definition getRelatedProblems ::
  "string \<Rightarrow> UniqueQuestion \<Rightarrow> (string, UniqueQuestion) js_map \<Rightarrow> int \<Rightarrow> InternalLink list" where
  "getRelatedProblems siteUrl currentQuestion allQuestions limit =
     (let relatedSlugs = new_Set (relatedQuestions currentQuestion);
          links = explicitLinks (problemLink siteUrl 1) allQuestions relatedSlugs;
          links =
            (if int (length links) < limit then
               (let additional =
                      slice0 (limit - int (length links))
                        (js_sort (\<lambda>a b. snd b - snd a)
                           (scoreProblems currentQuestion relatedSlugs (map snd allQuestions) []))
                in links @ map (\<lambda>(q, score). problemLink siteUrl (8 / 10) q) additional)
             else links)
      in slice0 limit links)"

section \<open>Notions used to state and prove the properties\<close>

text \<open>All the values of a map of arrays, in order: \<open>for (const refs of m.values()) all.push(...refs)\<close>.\<close>

definition valuesOf :: "('k, 'v list) js_map \<Rightarrow> 'v list" where
  "valuesOf m = concat (map snd m)"

text \<open>The cross-references of an index: those of the company view, then those of the topic view.\<close>

definition crossRefsOf :: "CrossReferenceIndex \<Rightarrow> CompanyTopicCrossRef list" where
  "crossRefsOf idx = valuesOf (companyTopics idx) @ valuesOf (topicCompanies idx)"

text \<open>No company and no topic of the records holds a colon, the separator of the bucket keys.\<close>

definition colonFree :: "QuestionWithDetails list \<Rightarrow> bool" where
  "colonFree qs =
     list_all (\<lambda>q. CHR '':'' \<notin> set (QuestionWithDetails.company q) \<and>
                   list_all (\<lambda>t. CHR '':'' \<notin> set t) (QuestionWithDetails.topics q)) qs"

text \<open>
  The number of occurrences of a topic, letter case ignored, in the topic lists of the
  records of a company; and the number of the records of the company that list it.
\<close>

definition topicOccurrences :: "string \<Rightarrow> string \<Rightarrow> QuestionWithDetails list \<Rightarrow> nat" where
  "topicOccurrences c topic qs =
     sum_list (map (\<lambda>q. length (filter (\<lambda>t. toLowerCase t = toLowerCase topic)
                                   (QuestionWithDetails.topics q)))
                 (filter (\<lambda>q. QuestionWithDetails.company q = c) qs))"

definition recordsWithTopic :: "string \<Rightarrow> string \<Rightarrow> QuestionWithDetails list \<Rightarrow> nat" where
  "recordsWithTopic c topic qs =
     length (filter (\<lambda>q. QuestionWithDetails.company q = c \<and> hasTopic (toLowerCase topic) q) qs)"

text \<open>A sequence of \<open>push\<close>es into a map of arrays, and the one that fills the buckets.\<close>

definition push_all :: "('k, 'v list) js_map \<Rightarrow> ('k \<times> 'v) list \<Rightarrow> ('k, 'v list) js_map" where
  "push_all m ps = foldl (\<lambda>m p. map_push m (fst p) (snd p)) m ps"

definition keyedTopics :: "QuestionWithDetails list \<Rightarrow> (string \<times> QuestionWithDetails) list" where
  "keyedTopics qs =
     concat (map (\<lambda>q. map (\<lambda>t. (crossRefKey (QuestionWithDetails.company q) t, q))
                         (QuestionWithDetails.topics q)) qs)"

section \<open>Example data\<close>

text \<open>Two records of one question, asked by two companies.\<close>

definition exampleRecord :: "string \<Rightarrow> rat \<Rightarrow> QuestionWithDetails" where
  "exampleRecord c f =
     \<lparr>QuestionWithDetails.qid = 1, slug = ''two-sum'', title = ''Two Sum'', difficulty = ''Easy'',
      topics = [''Array'', ''Hash Table''], acceptance_rate = 50, company = c, frequency = f,
      timeframe = ''all'', is_premium = ''N'', link = ''https://leetcode.com/problems/two-sum''\<rparr>"

definition exampleInput :: "QuestionWithDetails list" where
  "exampleInput = [exampleRecord ''google'' 80, exampleRecord ''amazon'' 40]"


text \<open>A record that lists one topic twice.\<close>

definition repeatedTopicRecord :: QuestionWithDetails where
  "repeatedTopicRecord =
     (exampleRecord ''google'' 80)\<lparr>QuestionWithDetails.topics := [''Array'', ''Array'']\<rparr>"

text \<open>A record with two topic names that differ, in lower case, only by a hyphen for a space.\<close>

definition hyphenRecord :: QuestionWithDetails where
  "hyphenRecord =
     (exampleRecord ''google'' 80)\<lparr>QuestionWithDetails.topics := [''Hash Table'', ''Hash-Table'']\<rparr>"

section \<open>Properties of the sort and of the maps\<close>

lemma set_js_insert: "set (js_insert cmp x xs) = insert x (set xs)"
  by (induction xs) auto

lemma set_js_sort: "set (js_sort cmp xs) = set xs"
  by (induction xs) (auto simp: js_sort_def set_js_insert)

lemma length_js_insert: "length (js_insert cmp x xs) = Suc (length xs)"
  by (induction xs) auto

lemma length_js_sort: "length (js_sort cmp xs) = length xs"
  by (induction xs) (auto simp: js_sort_def length_js_insert)

text \<open>A comparator that compares a key makes \<open>js_sort\<close> the stable sort by that key.\<close>

lemma js_insert_insort_key:
  assumes "\<And>x y. (cmp x y \<le> 0) = (f x \<le> f y)"
  shows "js_insert cmp x xs = insort_key f x xs"
  by (induction xs) (auto simp: assms)

lemma js_sort_sort_key:
  assumes "\<And>x y. (cmp x y \<le> 0) = (f x \<le> f y)"
  shows "js_sort cmp xs = sort_key f xs"
  by (induction xs) (auto simp: js_sort_def js_insert_insort_key[OF assms])

lemma set_map_set: "set (map_set m k v) \<subseteq> insert (k, v) (set m)"
  unfolding map_set_def by (induction m) auto

lemma length_foldl_set_add: "length (foldl set_add acc xs) \<le> length acc + length xs"
proof (induction xs arbitrary: acc)
  case Nil
  show ?case by simp
next
  case (Cons x xs)
  have "length (set_add acc x) \<le> Suc (length acc)"
    by (simp add: set_add_def)
  with Cons.IH[of "set_add acc x"] show ?case by simp
qed

lemma length_new_Set: "length (new_Set xs) \<le> length xs"
  using length_foldl_set_add[of "[]" xs] by (simp add: new_Set_def)

section \<open>Properties of the company aggregation\<close>






text \<open>Every entry of the company map is made from the records of its key, and there are some.\<close>

lemma collectCompanies_entries:
  "(k, c) \<in> set (collectCompanies qs cl m) \<Longrightarrow>
   (k, c) \<in> set m \<or>
   (filter (\<lambda>q. QuestionWithDetails.company q = k) qs \<noteq> [] \<and>
    c = makeCompany k (filter (\<lambda>q. QuestionWithDetails.company q = k) qs))"
proof (induction cl arbitrary: m)
  case Nil
  then show ?case by simp
next
  case (Cons s rest)
  show ?case
  proof (cases "filter (\<lambda>q. QuestionWithDetails.company q = s) qs = []")
    case True
    with Cons.prems have "(k, c) \<in> set (collectCompanies qs rest m)"
      by simp
    from Cons.IH[OF this] show ?thesis .
  next
    case False
    with Cons.prems have "(k, c) \<in> set (collectCompanies qs rest
        (map_set m s (makeCompany s (filter (\<lambda>q. QuestionWithDetails.company q = s) qs))))"
      by (simp add: Let_def)
    from Cons.IH[OF this] set_map_set[of m s] False show ?thesis
      by auto
  qed
qed

lemma aggregateCompanies_entries:
  assumes "(k, c) \<in> set (aggregateCompanies qs cl)"
  shows "filter (\<lambda>q. QuestionWithDetails.company q = k) qs \<noteq> [] \<and>
         c = makeCompany k (filter (\<lambda>q. QuestionWithDetails.company q = k) qs)"
  using assms collectCompanies_entries[of k c qs cl "[]"]
  by (simp add: aggregateCompanies_def set_js_sort)



text \<open>
  C10. For every company that \<open>aggregateCompanies\<close> produces, \<open>uniqueQuestionCount\<close>
  (the number of distinct slugs among its records) is at most \<open>questionCount\<close> (the
  number of its records).
\<close>

theorem uniqueQuestionCount_le_questionCount:
  assumes "(k, c) \<in> set (aggregateCompanies qs cl)"
  shows "uniqueQuestionCount c \<le> Company.questionCount c"
  using aggregateCompanies_entries[OF assms]
    length_new_Set[of "map QuestionWithDetails.slug
                         (filter (\<lambda>q. QuestionWithDetails.company q = k) qs)"]
  by (simp add: makeCompany_def)

theorem uniqueQuestionCount_le_questionCount_witness:
  "(''amazon'', makeCompany ''amazon'' [exampleRecord ''amazon'' 40])
     \<in> set (aggregateCompanies exampleInput [''amazon'', ''google'']) \<and>
   uniqueQuestionCount (makeCompany ''amazon'' [exampleRecord ''amazon'' 40])
     \<le> Company.questionCount (makeCompany ''amazon'' [exampleRecord ''amazon'' 40])"
proof -
  have h: "(''amazon'', makeCompany ''amazon'' [exampleRecord ''amazon'' 40])
             \<in> set (aggregateCompanies exampleInput [''amazon'', ''google''])"
    by code_simp
  from uniqueQuestionCount_le_questionCount[OF h] h show ?thesis
    by blast
qed

section \<open>Properties of the accessors\<close>

text \<open>
  C9. For a slug that is not present in the snapshot, \<open>getCompanyBySlug\<close>,
  \<open>getTopicBySlug\<close> and \<open>getQuestionBySlug\<close> return \<open>null\<close>, and
  \<open>getQuestionsByCompany\<close>, \<open>getQuestionsByTopic\<close>, \<open>getCompanyTopicCrossRefs\<close>,
  \<open>getTopicCompanyCrossRefs\<close> and \<open>getQuestionCompanies\<close> return the empty list;
  these are values, not errors.
\<close>

theorem unknown_slug_is_absent:
  assumes "\<not> slugPresent cache s"
  shows "getCompanyBySlug cache s = None \<and> getTopicBySlug cache s = None \<and>
         getQuestionBySlug cache s = None \<and> getQuestionsByCompany cache s = [] \<and>
         getQuestionsByTopic cache s = [] \<and> getCompanyTopicCrossRefs cache s = [] \<and>
         getTopicCompanyCrossRefs cache s = [] \<and> getQuestionCompanies cache s = []"
  using assms
  by (simp add: slugPresent_def map_has_def map_get_def get_or_empty_def
      getCompanyBySlug_def getTopicBySlug_def getQuestionBySlug_def getQuestionsByCompany_def
      getQuestionsByTopic_def getCompanyTopicCrossRefs_def getTopicCompanyCrossRefs_def
      getQuestionCompanies_def)

theorem unknown_slug_is_absent_witness:
  "\<not> slugPresent (aggregateAll [exampleRecord ''google'' 80] [''google''] [''Array''])
       ''netflix'' \<and>
   getCompanyBySlug (aggregateAll [exampleRecord ''google'' 80] [''google''] [''Array''])
       ''netflix'' = None \<and>
   getQuestionsByCompany (aggregateAll [exampleRecord ''google'' 80] [''google''] [''Array''])
       ''netflix'' = []"
proof -
  have h: "\<not> slugPresent (aggregateAll [exampleRecord ''google'' 80] [''google''] [''Array''])
             ''netflix''"
    by code_simp
  from unknown_slug_is_absent[OF h] h show ?thesis
    by blast
qed

section \<open>Properties of the cache controller\<close>

text \<open>The state after one call and \<open>n\<close> more, none of them resumed yet.\<close>

lemma getBuildCache_pending:
  "getBuildCache \<lparr>buildCache = None, cachePromise = Some p, builds = bs, calls = cs\<rparr> =
   \<lparr>buildCache = None, cachePromise = Some p, builds = bs, calls = cs @ [Follows p]\<rparr>"
  by (simp add: getBuildCache_def)

lemma calls_state:
  "(getBuildCache ^^ Suc n) (initial :: 'a controller) =
   \<lparr>buildCache = None, cachePromise = Some 0, builds = [Pending],
    calls = Awaiting 0 # replicate n (Follows 0)\<rparr>"
proof (induction n)
  case 0
  show ?case by (simp add: getBuildCache_def initial_def)
next
  case (Suc n)
  have "(getBuildCache ^^ Suc (Suc n)) (initial :: 'a controller) =
        getBuildCache ((getBuildCache ^^ Suc n) initial)"
    by (simp only: funpow.simps o_apply)
  also have "\<dots> = getBuildCache \<lparr>buildCache = None, cachePromise = Some 0, builds = [Pending],
    calls = Awaiting 0 # replicate n (Follows 0)\<rparr>"
    by (simp only: Suc.IH)
  also have "\<dots> = \<lparr>buildCache = None, cachePromise = Some 0, builds = [Pending],
    calls = Awaiting 0 # replicate (Suc n) (Follows 0)\<rparr>"
    by (simp add: getBuildCache_pending replicate_append_same)
  finally show ?case .
qed

lemma resume_other: "calls st ! i \<noteq> Awaiting p \<Longrightarrow> resume p r st i = st"
  by (simp add: resume_def)

lemma foldl_resume_others:
  "(\<forall>i \<in> set is. calls st ! i \<noteq> Awaiting p) \<Longrightarrow> foldl (resume p r) st is = st"
  by (induction "is") (auto simp: resume_other)

lemma settle_first_call:
  "settle 0 outcome
     \<lparr>buildCache = None, cachePromise = Some 0, builds = [Pending],
      calls = Awaiting 0 # replicate n (Follows 0)\<rparr> =
   (case outcome of
      Inr snapshot \<Rightarrow>
        \<lparr>buildCache = Some snapshot, cachePromise = None, builds = [Fulfilled snapshot],
         calls = Returned snapshot # replicate n (Follows 0)\<rparr>
    | Inl e \<Rightarrow>
        \<lparr>buildCache = None, cachePromise = Some 0, builds = [Rejected e],
         calls = Threw e # replicate n (Follows 0)\<rparr>)"
proof -
  have upt: "[0 ..< Suc n] = 0 # [1 ..< Suc n]"
    by (simp add: upt_rec)
  show ?thesis
  proof (cases outcome)
    case (Inl e)
    let ?st = "\<lparr>buildCache = None, cachePromise = Some 0, builds = [Rejected e],
            calls = Threw e # replicate n (Follows 0)\<rparr> :: 'a controller"
    have "\<forall>i \<in> set [1 ..< Suc n]. calls ?st ! i \<noteq> Awaiting 0"
      by (auto simp: nth_Cons')
    from foldl_resume_others[OF this, of "Rejected e"] show ?thesis
      unfolding settle_def Inl by (simp add: upt resume_def del: upt_Suc)
  next
    case (Inr v)
    let ?st = "\<lparr>buildCache = Some v, cachePromise = None, builds = [Fulfilled v],
            calls = Returned v # replicate n (Follows 0)\<rparr>"
    have "\<forall>i \<in> set [1 ..< Suc n]. calls ?st ! i \<noteq> Awaiting 0"
      by (auto simp: nth_Cons')
    from foldl_resume_others[OF this, of "Fulfilled v"] show ?thesis
      unfolding settle_def Inr by (simp add: upt resume_def del: upt_Suc)
  qed
qed

lemma settle_after_calls:
  "settle 0 outcome ((getBuildCache ^^ Suc n) initial) =
   (case outcome of
      Inr snapshot \<Rightarrow>
        \<lparr>buildCache = Some snapshot, cachePromise = None, builds = [Fulfilled snapshot],
         calls = Returned snapshot # replicate n (Follows 0)\<rparr>
    | Inl e \<Rightarrow>
        \<lparr>buildCache = None, cachePromise = Some 0, builds = [Rejected e],
         calls = Threw e # replicate n (Follows 0)\<rparr>)"
  by (simp only: calls_state settle_first_call)

text \<open>
  C2. When \<open>n \<ge> 1\<close> calls of \<open>getBuildCache\<close> are made before the build completes,
  \<open>buildAggregatedData\<close> is invoked once, and when it completes with a snapshot every one
  of the \<open>n\<close> calls is fulfilled with that snapshot.
\<close>

theorem concurrent_calls_share_one_build:
  assumes "1 \<le> n"
  shows "length (builds ((getBuildCache ^^ n) initial)) = 1 \<and>
         builds (settle 0 (Inr snapshot) ((getBuildCache ^^ n) initial)) = [Fulfilled snapshot] \<and>
         results (settle 0 (Inr snapshot) ((getBuildCache ^^ n) initial)) = replicate n (Fulfilled snapshot)"
proof -
  from assms obtain m where n: "n = Suc m"
    by (cases n) auto
  have a: "builds ((getBuildCache ^^ n) (initial :: 'a controller)) = [Pending]"
    by (simp only: n calls_state) simp
  have b: "settle 0 (Inr snapshot) ((getBuildCache ^^ n) initial) =
           \<lparr>buildCache = Some snapshot, cachePromise = None, builds = [Fulfilled snapshot],
            calls = Returned snapshot # replicate m (Follows 0)\<rparr>"
    by (simp only: n settle_after_calls) simp
  have c: "replicate n (Fulfilled snapshot) = Fulfilled snapshot # replicate m (Fulfilled snapshot)"
    by (simp add: n)
  show ?thesis
    by (simp add: a b c results_def callResult_def)
qed

theorem concurrent_calls_share_one_build_witness:
  "(1::nat) \<le> 3 \<and>
   length (builds ((getBuildCache ^^ 3) (initial :: nat controller))) = 1 \<and>
   builds (settle 0 (Inr 7) ((getBuildCache ^^ 3) (initial :: nat controller))) = [Fulfilled 7] \<and>
   results (settle 0 (Inr 7) ((getBuildCache ^^ 3) (initial :: nat controller))) =
     [Fulfilled 7, Fulfilled 7, Fulfilled 7]"
  using concurrent_calls_share_one_build[of 3 "7::nat"]
  by (simp add: numeral_3_eq_3)

text \<open>
  C1, as the code has it. When the build fails, every call that waited for it is rejected
  with the reason and \<open>buildCache\<close> stays empty; but \<open>cachePromise\<close> still holds the
  rejected promise, so the next call of \<open>getBuildCache\<close> starts no build and is rejected
  with the same reason.
\<close>

theorem failed_build_stays_cached:
  "results (settle 0 (Inl e) ((getBuildCache ^^ Suc n) initial)) = replicate (Suc n) (Rejected e) \<and>
   buildCache (settle 0 (Inl e) ((getBuildCache ^^ Suc n) initial)) = None \<and>
   cachePromise (settle 0 (Inl e) ((getBuildCache ^^ Suc n) initial)) = Some 0 \<and>
   length (builds (getBuildCache (settle 0 (Inl e) ((getBuildCache ^^ Suc n) initial)))) = 1 \<and>
   last (results (getBuildCache (settle 0 (Inl e) ((getBuildCache ^^ Suc n) initial)))) = Rejected e"
  by (simp only: settle_after_calls) (simp add: results_def callResult_def getBuildCache_def)

section \<open>Properties of the question deduplication\<close>

lemma js_sort_frequency_sorted:
  "sorted_wrt (\<lambda>a b. CompanyFrequency.frequency a \<ge> CompanyFrequency.frequency b)
     (js_sort (\<lambda>a b. CompanyFrequency.frequency b - CompanyFrequency.frequency a) xs)"
proof -
  have eq: "js_sort (\<lambda>a b. CompanyFrequency.frequency b - CompanyFrequency.frequency a) xs =
            sort_key (\<lambda>cf. - CompanyFrequency.frequency cf) xs"
    by (rule js_sort_sort_key) auto
  have "sorted (map (\<lambda>cf. - CompanyFrequency.frequency cf)
                 (sort_key (\<lambda>cf. - CompanyFrequency.frequency cf) xs))"
    by (rule sorted_sort_key)
  then show ?thesis
    unfolding eq by (simp add: sorted_map)
qed

lemma collectUnique_entries:
  "(k, u) \<in> set (collectUnique qs qc rest m) \<Longrightarrow>
   (k, u) \<in> set m \<or>
   (\<exists>q cs. u = makeUniqueQuestion qs q
              (js_sort (\<lambda>a b. CompanyFrequency.frequency b - CompanyFrequency.frequency a) cs))"
proof (induction rest arbitrary: qc m)
  case Nil
  then show ?case by simp
next
  case (Cons q rest)
  show ?case
  proof (cases "map_has m (QuestionWithDetails.slug q)")
    case True
    with Cons.prems have "(k, u) \<in> set (collectUnique qs qc rest m)"
      by simp
    from Cons.IH[OF this] show ?thesis .
  next
    case False
    let ?cs = "js_sort (\<lambda>a b. CompanyFrequency.frequency b - CompanyFrequency.frequency a)
                 (get_or_empty qc (QuestionWithDetails.slug q))"
    from False Cons.prems have "(k, u) \<in> set (collectUnique qs
        (map_set qc (QuestionWithDetails.slug q) ?cs) rest
        (map_set m (QuestionWithDetails.slug q) (makeUniqueQuestion qs q ?cs)))"
      by (simp add: Let_def)
    from Cons.IH[OF this] set_map_set[of m "QuestionWithDetails.slug q"] show ?thesis
      by blast
  qed
qed

lemma companies_makeUniqueQuestion: "UniqueQuestion.companies (makeUniqueQuestion qs q cs) = cs"
  by (simp add: makeUniqueQuestion_def)

text \<open>
  C8. Every \<open>UniqueQuestion\<close> that \<open>deduplicateQuestions\<close> produces lists its companies by
  frequency, the highest first; for the two records of two-sum, asked by google with
  frequency 80 and by amazon with frequency 40, the list is google, then amazon, in
  whichever order the two records come.
\<close>

theorem companies_sorted_by_frequency:
  "(\<forall>(k, u) \<in> set (deduplicateQuestions qs).
      sorted_wrt (\<lambda>a b. CompanyFrequency.frequency a \<ge> CompanyFrequency.frequency b)
        (UniqueQuestion.companies u)) \<and>
   map (\<lambda>(k, u). (k, map (\<lambda>cf. (CompanyFrequency.company cf, CompanyFrequency.frequency cf))
                       (UniqueQuestion.companies u)))
     (deduplicateQuestions [exampleRecord ''google'' 80, exampleRecord ''amazon'' 40]) =
     [(''two-sum'', [(''google'', 80), (''amazon'', 40)])] \<and>
   map (\<lambda>(k, u). (k, map (\<lambda>cf. (CompanyFrequency.company cf, CompanyFrequency.frequency cf))
                       (UniqueQuestion.companies u)))
     (deduplicateQuestions [exampleRecord ''amazon'' 40, exampleRecord ''google'' 80]) =
     [(''two-sum'', [(''google'', 80), (''amazon'', 40)])]"
proof (intro conjI)
  show "\<forall>(k, u) \<in> set (deduplicateQuestions qs).
      sorted_wrt (\<lambda>a b. CompanyFrequency.frequency a \<ge> CompanyFrequency.frequency b)
        (UniqueQuestion.companies u)"
  proof (clarify)
    fix k u
    assume "(k, u) \<in> set (deduplicateQuestions qs)"
    then have "(k, u) \<in> set (collectUnique qs (groupCompanies qs) qs [])"
      by (simp add: deduplicateQuestions_def set_js_sort)
    from collectUnique_entries[OF this] obtain q cs where
      "u = makeUniqueQuestion qs q
             (js_sort (\<lambda>a b. CompanyFrequency.frequency b - CompanyFrequency.frequency a) cs)"
      by auto
    then show "sorted_wrt (\<lambda>a b. CompanyFrequency.frequency a \<ge> CompanyFrequency.frequency b)
        (UniqueQuestion.companies u)"
      by (simp only: companies_makeUniqueQuestion js_sort_frequency_sorted)
  qed
next
  show "map (\<lambda>(k, u). (k, map (\<lambda>cf. (CompanyFrequency.company cf, CompanyFrequency.frequency cf))
                       (UniqueQuestion.companies u)))
     (deduplicateQuestions [exampleRecord ''google'' 80, exampleRecord ''amazon'' 40]) =
     [(''two-sum'', [(''google'', 80), (''amazon'', 40)])]"
    by code_simp
next
  show "map (\<lambda>(k, u). (k, map (\<lambda>cf. (CompanyFrequency.company cf, CompanyFrequency.frequency cf))
                       (UniqueQuestion.companies u)))
     (deduplicateQuestions [exampleRecord ''amazon'' 40, exampleRecord ''google'' 80]) =
     [(''two-sum'', [(''google'', 80), (''amazon'', 40)])]"
    by code_simp
qed

theorem companies_sorted_by_frequency_witness:
  "deduplicateQuestions exampleInput \<noteq> [] \<and>
   hd (deduplicateQuestions exampleInput) \<in> set (deduplicateQuestions exampleInput) \<and>
   sorted_wrt (\<lambda>a b. CompanyFrequency.frequency a \<ge> CompanyFrequency.frequency b)
     (UniqueQuestion.companies (snd (hd (deduplicateQuestions exampleInput))))"
proof -
  have ne: "deduplicateQuestions exampleInput \<noteq> []"
    by code_simp
  then have h: "hd (deduplicateQuestions exampleInput) \<in> set (deduplicateQuestions exampleInput)"
    by simp
  from companies_sorted_by_frequency[of exampleInput] h ne show ?thesis
    by (auto simp: split_beta)
qed

section \<open>Properties of the related companies\<close>












section \<open>Properties of the build\<close>





section \<open>Properties of the cross-reference index\<close>

subsection \<open>Lower case and bucket keys\<close>

lemma of_char_toLowerCase_char:
  "(of_char (toLowerCase_char c) :: nat) =
   (if 65 \<le> (of_char c :: nat) \<and> (of_char c :: nat) \<le> 90 then of_char c + 32 else of_char c)"
  by (simp add: toLowerCase_char_def Let_def)

lemma toLowerCase_char_idem: "toLowerCase_char (toLowerCase_char c) = toLowerCase_char c"
proof -
  have "(of_char (toLowerCase_char (toLowerCase_char c)) :: nat) = of_char (toLowerCase_char c)"
    unfolding of_char_toLowerCase_char[of "toLowerCase_char c"]
    by (simp add: of_char_toLowerCase_char)
  then show ?thesis by simp
qed

lemma toLowerCase_idem: "toLowerCase (toLowerCase s) = toLowerCase s"
  by (simp add: toLowerCase_def toLowerCase_char_idem)

lemma toLowerCase_char_colon: "toLowerCase_char c = CHR '':'' \<longleftrightarrow> c = CHR '':''"
proof -
  have "toLowerCase_char c = CHR '':'' \<longleftrightarrow> (of_char (toLowerCase_char c) :: nat) = of_char CHR '':''"
    by (simp only: of_char_eq_iff)
  also have "\<dots> \<longleftrightarrow> (of_char c :: nat) = of_char CHR '':''"
    unfolding of_char_toLowerCase_char by auto
  also have "\<dots> \<longleftrightarrow> c = CHR '':''"
    by (simp only: of_char_eq_iff)
  finally show ?thesis .
qed

lemma colon_toLowerCase: "CHR '':'' \<in> set (toLowerCase s) \<longleftrightarrow> CHR '':'' \<in> set s"
proof -
  have "CHR '':'' \<in> set (toLowerCase s) \<longleftrightarrow> (\<exists>x \<in> set s. toLowerCase_char x = CHR '':'')"
    unfolding toLowerCase_def set_map image_iff by (simp add: eq_commute)
  then show ?thesis
    by (simp add: toLowerCase_char_colon)
qed

lemma split_no_sep: "sep \<notin> set s \<Longrightarrow> split sep s = [s]"
  by (induction s) auto

lemma split_append: "sep \<notin> set a \<Longrightarrow> split sep (a @ sep # b) = a # split sep b"
  by (induction a) auto

lemma split_key:
  "CHR '':'' \<notin> set c \<Longrightarrow> CHR '':'' \<notin> set t \<Longrightarrow>
   split CHR '':'' (crossRefKey c t) = [c, toLowerCase t]"
  by (simp add: crossRefKey_def split_append split_no_sep colon_toLowerCase)

lemma crossRefKey_inj:
  assumes "CHR '':'' \<notin> set c1" "CHR '':'' \<notin> set t1" "CHR '':'' \<notin> set c2" "CHR '':'' \<notin> set t2"
  shows "crossRefKey c1 t1 = crossRefKey c2 t2 \<longleftrightarrow> c1 = c2 \<and> toLowerCase t1 = toLowerCase t2"
proof
  assume "crossRefKey c1 t1 = crossRefKey c2 t2"
  then have "split CHR '':'' (crossRefKey c1 t1) = split CHR '':'' (crossRefKey c2 t2)"
    by simp
  then show "c1 = c2 \<and> toLowerCase t1 = toLowerCase t2"
    using assms by (simp add: split_key)
next
  assume "c1 = c2 \<and> toLowerCase t1 = toLowerCase t2"
  then show "crossRefKey c1 t1 = crossRefKey c2 t2"
    by (simp add: crossRefKey_def)
qed

subsection \<open>Buckets\<close>

lemma map_of_map_push:
  "map_of (map_push m k v) k' =
   (if k' = k then Some (get_or_empty m k @ [v]) else map_of m k')"
  by (auto simp: map_push_def map_set_def map_has_def get_or_empty_def map_get_def Let_def
      update_conv' split: option.splits)

lemma keys_map_push: "fst ` set (map_push m k v) = insert k (fst ` set m)"
  by (auto simp: map_push_def map_set_def Let_def dom_update)

lemma distinct_map_push: "distinct (map fst m) \<Longrightarrow> distinct (map fst (map_push m k v))"
  by (simp add: map_push_def map_set_def Let_def distinct_update)

lemma distinct_push_all: "distinct (map fst m) \<Longrightarrow> distinct (map fst (push_all m ps))"
  unfolding push_all_def by (induction ps arbitrary: m) (auto simp: distinct_map_push)

lemma map_of_push_all:
  "map_of (push_all m ps) k =
   (if k \<in> fst ` set ps then Some (get_or_empty m k @ map snd (filter (\<lambda>p. fst p = k) ps))
    else map_of m k)"
proof (induction ps arbitrary: m)
  case Nil
  show ?case by (simp add: push_all_def)
next
  case (Cons p ps)
  have step: "push_all m (p # ps) = push_all (map_push m (fst p) (snd p)) ps"
    by (simp add: push_all_def)
  have g: "get_or_empty (map_push m (fst p) (snd p)) k =
           (if k = fst p then get_or_empty m k @ [snd p] else get_or_empty m k)"
    by (simp add: get_or_empty_def map_get_def map_of_map_push)
  show ?case
    unfolding step Cons.IH g
    by (auto simp: map_of_map_push get_or_empty_def map_get_def filter_empty_conv image_iff)
qed

lemma push_all_entries:
  assumes "(k, vs) \<in> set (push_all [] ps)"
  shows "k \<in> fst ` set ps \<and> vs = map snd (filter (\<lambda>p. fst p = k) ps)"
proof -
  have "distinct (map fst (push_all ([] :: ('a, 'b list) js_map) ps))"
    by (rule distinct_push_all) simp
  with assms have "map_of (push_all [] ps) k = Some vs"
    by simp
  then show ?thesis
    unfolding map_of_push_all by (auto simp: get_or_empty_def map_get_def split: if_splits)
qed

lemma foldl_inner:
  "foldl (\<lambda>m topic. map_push m (f topic) q) m ts = push_all m (map (\<lambda>t. (f t, q)) ts)"
  by (induction ts arbitrary: m) (auto simp: push_all_def)

lemma push_all_append: "push_all m (xs @ ys) = push_all (push_all m xs) ys"
  by (simp add: push_all_def)

lemma foldl_outer:
  "foldl (\<lambda>m q. foldl (\<lambda>m topic. map_push m (crossRefKey (QuestionWithDetails.company q) topic) q)
                     m (QuestionWithDetails.topics q)) m qs = push_all m (keyedTopics qs)"
proof (induction qs arbitrary: m)
  case Nil
  show ?case by (simp add: keyedTopics_def push_all_def)
next
  case (Cons q qs)
  have k: "keyedTopics (q # qs) =
     map (\<lambda>t. (crossRefKey (QuestionWithDetails.company q) t, q)) (QuestionWithDetails.topics q)
     @ keyedTopics qs"
    by (simp add: keyedTopics_def)
  let ?F = "\<lambda>m q. foldl (\<lambda>m topic. map_push m (crossRefKey (QuestionWithDetails.company q) topic) q)
                     m (QuestionWithDetails.topics q)"
  have "foldl ?F m (q # qs) = foldl ?F (?F m q) qs"
    by simp
  also have "\<dots> = push_all (?F m q) (keyedTopics qs)"
    by (rule Cons.IH)
  also have "?F m q = push_all m (map (\<lambda>t. (crossRefKey (QuestionWithDetails.company q) t, q))
                                   (QuestionWithDetails.topics q))"
    by (rule foldl_inner)
  finally show ?case
    by (simp only: k push_all_append)
qed

lemma buildCrossRefMap_push_all: "buildCrossRefMap qs = push_all [] (keyedTopics qs)"
  unfolding buildCrossRefMap_def by (rule foldl_outer)

subsection \<open>From the buckets to the index\<close>

lemma mem_valuesOf: "x \<in> set (valuesOf m) \<longleftrightarrow> (\<exists>k vs. (k, vs) \<in> set m \<and> x \<in> set vs)"
  unfolding valuesOf_def by (simp, force)

lemma get_or_empty_values:
  assumes "x \<in> set (get_or_empty m k)"
  shows "x \<in> set (valuesOf m)"
proof (cases "map_of m k")
  case None
  with assms show ?thesis by (simp add: get_or_empty_def map_get_def)
next
  case (Some vs)
  then have "(k, vs) \<in> set m" by (rule map_of_SomeD)
  moreover from assms Some have "x \<in> set vs" by (simp add: get_or_empty_def map_get_def)
  ultimately show ?thesis unfolding mem_valuesOf by blast
qed

lemma values_map_set:
  assumes "x \<in> set (valuesOf (map_set m k vs))"
  shows "x \<in> set vs \<or> x \<in> set (valuesOf m)"
proof -
  from assms obtain k' vs' where in_set: "(k', vs') \<in> set (map_set m k vs)" and x: "x \<in> set vs'"
    unfolding mem_valuesOf by blast
  from in_set set_map_set[of m k vs] have "(k', vs') = (k, vs) \<or> (k', vs') \<in> set m"
    by blast
  with x show ?thesis unfolding mem_valuesOf by blast
qed

lemma values_map_push:
  assumes "x \<in> set (valuesOf (map_push m k v))"
  shows "x = v \<or> x \<in> set (valuesOf m)"
proof -
  let ?m1 = "if map_has m k then m else map_set m k []"
  have m1: "\<And>y. y \<in> set (valuesOf ?m1) \<Longrightarrow> y \<in> set (valuesOf m)"
    using values_map_set[of _ m k "[]"] by (cases "map_has m k") auto
  from assms have "x \<in> set (valuesOf (map_set ?m1 k (get_or_empty ?m1 k @ [v])))"
    by (simp add: map_push_def Let_def)
  from values_map_set[OF this] have "x = v \<or> x \<in> set (get_or_empty ?m1 k) \<or> x \<in> set (valuesOf ?m1)"
    by auto
  then have "x = v \<or> x \<in> set (valuesOf ?m1)"
    using get_or_empty_values[of x ?m1 k] by blast
  with m1 show ?thesis by blast
qed

lemma addCrossRef_step:
  assumes "x \<in> set (valuesOf (fst (addCrossRef maps e))) \<or> x \<in> set (valuesOf (snd (addCrossRef maps e)))"
  shows "x \<in> set (valuesOf (fst maps)) \<or> x \<in> set (valuesOf (snd maps)) \<or>
         makeCrossRef (fst e) (snd e) = Some x"
proof (cases "makeCrossRef (fst e) (snd e)")
  case None
  with assms show ?thesis by (simp add: addCrossRef_def)
next
  case (Some cr)
  then have f: "fst (addCrossRef maps e) = map_push (fst maps) (companySlug cr) cr"
    and s: "snd (addCrossRef maps e) = map_push (snd maps) (topicSlug cr) cr"
    by (simp_all add: addCrossRef_def)
  from assms show ?thesis
    unfolding f s Some
    using values_map_push[of x "fst maps" "companySlug cr" cr]
      values_map_push[of x "snd maps" "topicSlug cr" cr]
    by blast
qed

lemma addCrossRef_values:
  assumes "x \<in> set (valuesOf (fst (foldl addCrossRef maps es))) \<or>
           x \<in> set (valuesOf (snd (foldl addCrossRef maps es)))"
  shows "x \<in> set (valuesOf (fst maps)) \<or> x \<in> set (valuesOf (snd maps)) \<or>
         (\<exists>e \<in> set es. makeCrossRef (fst e) (snd e) = Some x)"
  using assms
proof (induction es arbitrary: maps)
  case Nil
  then show ?case by simp
next
  case (Cons e es)
  from Cons.prems have "x \<in> set (valuesOf (fst (foldl addCrossRef (addCrossRef maps e) es))) \<or>
           x \<in> set (valuesOf (snd (foldl addCrossRef (addCrossRef maps e) es)))"
    by simp
  from Cons.IH[OF this] have
    "(x \<in> set (valuesOf (fst (addCrossRef maps e))) \<or> x \<in> set (valuesOf (snd (addCrossRef maps e)))) \<or>
     (\<exists>e \<in> set es. makeCrossRef (fst e) (snd e) = Some x)"
    by blast
  then show ?case
  proof
    assume "x \<in> set (valuesOf (fst (addCrossRef maps e))) \<or> x \<in> set (valuesOf (snd (addCrossRef maps e)))"
    from addCrossRef_step[OF this] show ?thesis by auto
  next
    assume "\<exists>e \<in> set es. makeCrossRef (fst e) (snd e) = Some x"
    then show ?thesis by auto
  qed
qed

lemma values_sortValues: "set (valuesOf (sortValues cmp m)) = set (valuesOf m)"
  by (induction m) (auto simp: valuesOf_def sortValues_def set_js_sort)

lemma crossRefsOf_origin:
  assumes "cr \<in> set (crossRefsOf (buildCrossReferenceIndex qs))"
  shows "\<exists>e \<in> set (buildCrossRefMap qs). makeCrossRef (fst e) (snd e) = Some cr"
proof -
  from assms have
    "cr \<in> set (valuesOf (fst (foldl addCrossRef ([], []) (buildCrossRefMap qs)))) \<or>
     cr \<in> set (valuesOf (snd (foldl addCrossRef ([], []) (buildCrossRefMap qs))))"
    by (simp add: crossRefsOf_def buildCrossReferenceIndex_def Let_def values_sortValues)
  from addCrossRef_values[OF this] show ?thesis
    by (simp add: valuesOf_def)
qed

text \<open>Every bucket makes a cross-reference: its key has two parts and it holds a record.\<close>

lemma split_nonempty: "split sep s \<noteq> []"
  by (induction s) (auto split: list.splits)

lemma split_two_parts: "\<exists>a b rest. split sep (c @ sep # t) = a # b # rest"
proof (induction c)
  case Nil
  show ?case using split_nonempty[of sep t] by (cases "split sep t") auto
next
  case (Cons x c)
  then show ?case by (auto split: list.splits)
qed

lemma makeCrossRef_defined:
  assumes "e \<in> set (buildCrossRefMap qs)"
  shows "makeCrossRef (fst e) (snd e) \<noteq> None"
proof -
  obtain key bucket where e: "e = (key, bucket)"
    by (cases e)
  with assms have "(key, bucket) \<in> set (push_all [] (keyedTopics qs))"
    by (simp add: buildCrossRefMap_push_all)
  from push_all_entries[OF this] have k: "key \<in> fst ` set (keyedTopics qs)"
    and b: "bucket = map snd (filter (\<lambda>p. fst p = key) (keyedTopics qs))"
    by simp_all
  from k obtain c t where "key = c @ CHR '':'' # toLowerCase t"
    by (auto simp: keyedTopics_def crossRefKey_def)
  with split_two_parts[of "CHR '':''" c "toLowerCase t"]
  obtain a b' rest where sp: "split CHR '':'' key = a # b' # rest"
    by auto
  from k b have "bucket \<noteq> []"
    by (auto simp: filter_empty_conv)
  then obtain q0 bs where "bucket = q0 # bs"
    by (cases bucket) auto
  with sp show ?thesis
    by (simp add: e makeCrossRef_def)
qed

lemma find_or_lower:
  assumes "toLowerCase l = l"
  shows "toLowerCase (find_or (\<lambda>t. toLowerCase t = l) xs l) = l"
proof (cases "List.find (\<lambda>t. toLowerCase t = l) xs")
  case None
  then show ?thesis by (simp add: find_or_def assms)
next
  case (Some t)
  then have "toLowerCase t = l"
    by (auto simp: find_Some_iff)
  with Some show ?thesis by (simp add: find_or_def assms)
qed

lemma length_filter_keyedTopics:
  "length (filter (\<lambda>p. fst p = key) (keyedTopics qs)) =
   sum_list (map (\<lambda>q. length (filter (\<lambda>t. crossRefKey (QuestionWithDetails.company q) t = key)
                                 (QuestionWithDetails.topics q))) qs)"
  by (induction qs) (auto simp: keyedTopics_def filter_map comp_def)

lemma sum_list_if_filter:
  "sum_list (map (\<lambda>q. if P q then f q else (0::nat)) qs) = sum_list (map f (filter P qs))"
  by (induction qs) auto

lemma bucket_size:
  assumes "colonFree qs" "CHR '':'' \<notin> set c" "CHR '':'' \<notin> set t0"
  shows "length (filter (\<lambda>p. fst p = crossRefKey c t0) (keyedTopics qs)) =
         topicOccurrences c t0 qs"
proof -
  have each: "\<And>q. q \<in> set qs \<Longrightarrow>
      length (filter (\<lambda>t. crossRefKey (QuestionWithDetails.company q) t = crossRefKey c t0)
                (QuestionWithDetails.topics q)) =
      (if QuestionWithDetails.company q = c
       then length (filter (\<lambda>t. toLowerCase t = toLowerCase t0) (QuestionWithDetails.topics q))
       else 0)"
  proof -
    fix q assume q: "q \<in> set qs"
    with assms(1) have qc: "CHR '':'' \<notin> set (QuestionWithDetails.company q)"
      and qt: "\<And>t. t \<in> set (QuestionWithDetails.topics q) \<Longrightarrow> CHR '':'' \<notin> set t"
      by (auto simp: colonFree_def list_all_iff)
    have "filter (\<lambda>t. crossRefKey (QuestionWithDetails.company q) t = crossRefKey c t0)
                (QuestionWithDetails.topics q) =
          filter (\<lambda>t. QuestionWithDetails.company q = c \<and> toLowerCase t = toLowerCase t0)
                (QuestionWithDetails.topics q)"
      by (rule filter_cong) (auto simp: crossRefKey_inj[OF qc qt assms(2) assms(3)])
    then show "length (filter (\<lambda>t. crossRefKey (QuestionWithDetails.company q) t = crossRefKey c t0)
                (QuestionWithDetails.topics q)) =
      (if QuestionWithDetails.company q = c
       then length (filter (\<lambda>t. toLowerCase t = toLowerCase t0) (QuestionWithDetails.topics q))
       else 0)"
      by simp
  qed
  have "length (filter (\<lambda>p. fst p = crossRefKey c t0) (keyedTopics qs)) =
        sum_list (map (\<lambda>q. if QuestionWithDetails.company q = c
           then length (filter (\<lambda>t. toLowerCase t = toLowerCase t0) (QuestionWithDetails.topics q))
           else 0) qs)"
    unfolding length_filter_keyedTopics
    by (rule arg_cong[where f = sum_list], rule map_cong) (auto simp: each)
  then show ?thesis
    by (simp add: sum_list_if_filter topicOccurrences_def)
qed

lemma crossRef_of_bucket:
  assumes cf: "colonFree qs"
    and e: "(key, bucket) \<in> set (buildCrossRefMap qs)"
    and m: "makeCrossRef key bucket = Some cr"
  shows "CompanyTopicCrossRef.questionCount cr =
         int (topicOccurrences (companySlug cr) (topicName cr) qs)"
proof -
  from e have "key \<in> fst ` set (keyedTopics qs)"
    and bucket: "bucket = map snd (filter (\<lambda>p. fst p = key) (keyedTopics qs))"
    using push_all_entries[of key bucket "keyedTopics qs"]
    by (simp_all add: buildCrossRefMap_push_all)
  then obtain q0 t0 where q0: "q0 \<in> set qs" and t0: "t0 \<in> set (QuestionWithDetails.topics q0)"
    and key: "key = crossRefKey (QuestionWithDetails.company q0) t0"
    by (auto simp: keyedTopics_def)
  from cf q0 t0 have c0: "CHR '':'' \<notin> set (QuestionWithDetails.company q0)"
    and ct: "CHR '':'' \<notin> set t0"
    by (auto simp: colonFree_def list_all_iff)
  have sp: "split CHR '':'' key = [QuestionWithDetails.company q0, toLowerCase t0]"
    unfolding key by (rule split_key[OF c0 ct])
  from m obtain b0 bs where b: "bucket = b0 # bs"
    by (cases bucket) (auto simp: makeCrossRef_def sp)
  from m have cs: "companySlug cr = QuestionWithDetails.company q0"
    and tn: "topicName cr = find_or (\<lambda>t. toLowerCase t = toLowerCase t0)
                              (QuestionWithDetails.topics b0) (toLowerCase t0)"
    and qc: "CompanyTopicCrossRef.questionCount cr = int (length bucket)"
    by (auto simp: makeCrossRef_def sp b)
  have low: "toLowerCase (topicName cr) = toLowerCase t0"
    unfolding tn by (rule find_or_lower) (rule toLowerCase_idem)
  have "length bucket = topicOccurrences (QuestionWithDetails.company q0) t0 qs"
    unfolding bucket key length_map by (rule bucket_size[OF cf c0 ct])
  also have "\<dots> = topicOccurrences (companySlug cr) (topicName cr) qs"
    by (simp add: topicOccurrences_def cs low)
  finally show ?thesis
    by (simp add: qc)
qed

lemma occurrences_distinct:
  assumes "distinct (map toLowerCase ts)"
  shows "length (filter (\<lambda>t. toLowerCase t = l) ts) =
         (if \<exists>t \<in> set ts. toLowerCase t = l then 1 else 0)"
  using assms
proof (induction ts)
  case Nil
  show ?case by simp
next
  case (Cons t ts)
  then show ?case
    by (auto simp: filter_empty_conv image_iff)
qed

lemma topicOccurrences_records:
  assumes "list_all (\<lambda>q. distinct (map toLowerCase (QuestionWithDetails.topics q))) qs"
  shows "topicOccurrences c topic qs = recordsWithTopic c topic qs"
  using assms
proof (induction qs)
  case Nil
  show ?case by (simp add: topicOccurrences_def recordsWithTopic_def)
next
  case (Cons q qs)
  then have d: "distinct (map toLowerCase (QuestionWithDetails.topics q))"
    and rest: "topicOccurrences c topic qs = recordsWithTopic c topic qs"
    by simp_all
  show ?case
    using rest occurrences_distinct[OF d, of "toLowerCase topic"]
    by (auto simp: topicOccurrences_def recordsWithTopic_def hasTopic_def)
qed

text \<open>
  C5, as stated, fails: for a record of google that lists the topic Array twice, the
  entry of (google, Array) has \<open>questionCount\<close> 2, and one record of google lists Array.
\<close>

theorem repeated_topic_is_counted_twice:
  "map (\<lambda>cr. (companySlug cr, topicName cr, CompanyTopicCrossRef.questionCount cr))
     (crossRefsOf (buildCrossReferenceIndex [repeatedTopicRecord])) =
     [(''google'', ''Array'', 2), (''google'', ''Array'', 2)] \<and>
   length (filter (\<lambda>q. QuestionWithDetails.company q = ''google'' \<and>
                        ''Array'' \<in> set (QuestionWithDetails.topics q)) [repeatedTopicRecord]) = 1"
  by code_simp

text \<open>
  C5, amended. For records whose companies and topics hold no colon, the
  \<open>questionCount\<close> of every entry of the index is the number of occurrences of the entry's
  topic, letter case ignored, in the topic lists of the records of the entry's company;
  when no record lists a topic twice (letter case ignored), that is the number of
  records of the company that list the topic.
\<close>

theorem crossRef_questionCount:
  assumes "colonFree qs"
    and "cr \<in> set (crossRefsOf (buildCrossReferenceIndex qs))"
  shows "CompanyTopicCrossRef.questionCount cr =
           int (topicOccurrences (companySlug cr) (topicName cr) qs) \<and>
         (list_all (\<lambda>q. distinct (map toLowerCase (QuestionWithDetails.topics q))) qs \<longrightarrow>
          CompanyTopicCrossRef.questionCount cr =
            int (recordsWithTopic (companySlug cr) (topicName cr) qs))"
proof -
  from crossRefsOf_origin[OF assms(2)] obtain key bucket where
    "(key, bucket) \<in> set (buildCrossRefMap qs)" "makeCrossRef key bucket = Some cr"
    by auto
  from crossRef_of_bucket[OF assms(1) this]
  show ?thesis
    by (auto simp: topicOccurrences_records)
qed

theorem crossRef_questionCount_witness:
  "colonFree exampleInput \<and>
   hd (crossRefsOf (buildCrossReferenceIndex exampleInput))
     \<in> set (crossRefsOf (buildCrossReferenceIndex exampleInput)) \<and>
   list_all (\<lambda>q. distinct (map toLowerCase (QuestionWithDetails.topics q))) exampleInput \<and>
   CompanyTopicCrossRef.questionCount (hd (crossRefsOf (buildCrossReferenceIndex exampleInput))) =
     int (recordsWithTopic (companySlug (hd (crossRefsOf (buildCrossReferenceIndex exampleInput))))
            (topicName (hd (crossRefsOf (buildCrossReferenceIndex exampleInput)))) exampleInput) \<and>
   CompanyTopicCrossRef.questionCount (hd (crossRefsOf (buildCrossReferenceIndex exampleInput))) = 1"
proof -
  have h1: "colonFree exampleInput"
    by code_simp
  have ne: "crossRefsOf (buildCrossReferenceIndex exampleInput) \<noteq> []"
    by code_simp
  then have h2: "hd (crossRefsOf (buildCrossReferenceIndex exampleInput))
                   \<in> set (crossRefsOf (buildCrossReferenceIndex exampleInput))"
    by simp
  have h3: "list_all (\<lambda>q. distinct (map toLowerCase (QuestionWithDetails.topics q))) exampleInput"
    by code_simp
  have one: "CompanyTopicCrossRef.questionCount
               (hd (crossRefsOf (buildCrossReferenceIndex exampleInput))) = 1"
    by code_simp
  from crossRef_questionCount[OF h1 h2] h1 h2 h3 one show ?thesis
    by blast
qed

section \<open>Properties of the related topics\<close>

text \<open>
  C7, as the code has it. \<open>calculateRelatedTopics\<close> leaves the target out by comparing
  topic names in lower case, and returns slugs; two names with one slug pass the
  comparison. For the record that lists Hash Table and Hash-Table, the topic of the
  snapshot has its own slug among its related topics, and the first link that
  \<open>getRelatedTopics\<close> returns for it targets the topic itself.
\<close>

theorem related_topics_link_to_self:
  "map (\<lambda>(k, t). (k, Topic.slug t, relatedTopics t))
     (BuildCache.topics (aggregateAll [hyphenRecord] [''google''] [''Hash Table''])) =
     [(''hash-table'', ''hash-table'', [''hash-table''])] \<and>
   map (\<lambda>(k, t). map href
          (getRelatedTopics ''https://codejeet.vercel.app'' t
             (BuildCache.topics (aggregateAll [hyphenRecord] [''google''] [''Hash Table''])) 6))
     (BuildCache.topics (aggregateAll [hyphenRecord] [''google''] [''Hash Table''])) =
     [[''https://codejeet.vercel.app/topic/hash-table'']] \<and>
   getCanonicalUrl ''https://codejeet.vercel.app'' PageTopic [(''slug'', ''hash-table'')] =
     ''https://codejeet.vercel.app/topic/hash-table''"
  by code_simp

end
